theory Spec2Isabelle
  imports Complex_Main
begin

section \<open>The rate limiter of \<^verbatim>\<open>low-level-design/Rate Limiter/rate-limiter.py\<close>\<close>

text \<open>
  The module defines two admission-control strategies and a factory. Both strategies
  keep a dictionary from user id to per-user state and take every decision under one
  lock, so a call to \<^verbatim>\<open>is_allowed\<close> is atomic and a run of the limiter is a
  sequence of calls.

  Modelling decisions:
  \<^item> Time is what \<^verbatim>\<open>time.time()\<close> returns. The readings are inputs of the model
    and are exact rationals: the arithmetic of the source on them (a difference, a
    comparison, a floor division) is taken at its mathematical value.
  \<^item> The parameters \<^verbatim>\<open>capacity\<close> and \<^verbatim>\<open>max_requests\<close> are Python integers
    (unbounded), the parameters \<^verbatim>\<open>refill_interval\<close> and \<^verbatim>\<open>window\<close> are
    durations. The constructors check nothing, so every value of these types can
    reach \<^verbatim>\<open>is_allowed\<close>.
  \<^item> A raised exception is a value of \<open>py_error\<close>.
\<close>

type_synonym timestamp = rat

datatype py_error = ValueError | TypeError | ZeroDivisionError

subsection \<open>\<^verbatim>\<open>TokenBucketRateLimiter\<close>\<close>

text \<open>The dictionary stored per user: \<^verbatim>\<open>{"tokens": ..., "last_refill": ...}\<close>.\<close>

record bucket =
  tokens :: int
  last_refill :: timestamp

record TokenBucketRateLimiter =
  capacity :: int
  refill_interval :: rat
  buckets :: "string \<rightharpoonup> bucket"

text \<open>\<^verbatim>\<open>__init__(self, capacity=3, refill_interval=20.0)\<close>: stores its arguments as
  they are and starts with no bucket.\<close>

definition TokenBucketRateLimiter_init :: "int \<Rightarrow> rat \<Rightarrow> TokenBucketRateLimiter" where
  "TokenBucketRateLimiter_init c r =
     \<lparr>capacity = c, refill_interval = r, buckets = Map.empty\<rparr>"

text \<open>
  Lines 20 to 26 of \<^verbatim>\<open>is_allowed\<close>: the bucket of the user, a full one stamped
  with the clock when the user is new. The reading \<open>t_create\<close> of the clock is taken
  only in that case.
\<close>

definition fetch_bucket :: "TokenBucketRateLimiter \<Rightarrow> string \<Rightarrow> timestamp \<Rightarrow> bucket" where
  "fetch_bucket l user_id t_create =
     (case buckets l user_id of
        None \<Rightarrow> \<lparr>tokens = capacity l, last_refill = t_create\<rparr>
      | Some b \<Rightarrow> b)"

text \<open>Line 29: \<^verbatim>\<open>int(elapsed // self.refill_interval)\<close>, for a divisor that is not zero.\<close>

definition tokens_to_add :: "rat \<Rightarrow> bucket \<Rightarrow> timestamp \<Rightarrow> int" where
  "tokens_to_add r b now = \<lfloor>(now - last_refill b) / r\<rfloor>"

text \<open>
  Lines 27 to 33: the refill. Python's floor division raises
  \<^verbatim>\<open>ZeroDivisionError\<close> on a zero divisor, for integers and floats alike.
\<close>

definition refill :: "int \<Rightarrow> rat \<Rightarrow> bucket \<Rightarrow> timestamp \<Rightarrow> py_error + bucket" where
  "refill cap r b now =
     (if r = 0 then Inl ZeroDivisionError
      else if tokens_to_add r b now > 0
        then Inr \<lparr>tokens = min cap (tokens b + tokens_to_add r b now), last_refill = now\<rparr>
        else Inr b)"

text \<open>Lines 35 to 38: one token is taken when there is one.\<close>

definition consume :: "bucket \<Rightarrow> bool \<times> bucket" where
  "consume b =
     (if tokens b > 0 then (True, b\<lparr>tokens := tokens b - 1\<rparr>) else (False, b))"

text \<open>
  \<^verbatim>\<open>is_allowed(self, user_id)\<close>. The two readings of the clock are arguments:
  \<open>t_create\<close> is the reading of line 23 (taken for a new user only), \<open>now\<close> the
  reading of line 27. The result is the value returned or the exception raised,
  with the limiter as the call leaves it: when the division raises, the bucket of a
  new user has already been stored.
\<close>

definition TokenBucketRateLimiter_is_allowed ::
  "TokenBucketRateLimiter \<Rightarrow> string \<Rightarrow> timestamp \<Rightarrow> timestamp
     \<Rightarrow> (py_error + bool) \<times> TokenBucketRateLimiter" where
  "TokenBucketRateLimiter_is_allowed l user_id t_create now =
     (let b0 = fetch_bucket l user_id t_create in
      case refill (capacity l) (refill_interval l) b0 now of
        Inl e \<Rightarrow> (Inl e, l\<lparr>buckets := (buckets l)(user_id \<mapsto> b0)\<rparr>)
      | Inr b1 \<Rightarrow>
          (case consume b1 of
             (ok, b2) \<Rightarrow> (Inr ok, l\<lparr>buckets := (buckets l)(user_id \<mapsto> b2)\<rparr>)))"

subsection \<open>\<^verbatim>\<open>SlidingWindowRateLimiter\<close>\<close>

record SlidingWindowRateLimiter =
  max_requests :: int
  window :: rat
  requests :: "string \<rightharpoonup> timestamp list"

definition SlidingWindowRateLimiter_init :: "int \<Rightarrow> rat \<Rightarrow> SlidingWindowRateLimiter" where
  "SlidingWindowRateLimiter_init m w =
     \<lparr>max_requests = m, window = w, requests = Map.empty\<rparr>"

text \<open>Lines 51 and 52: the timestamps stored for the user, none for a new user.\<close>

definition fetch_requests :: "SlidingWindowRateLimiter \<Rightarrow> string \<Rightarrow> timestamp list" where
  "fetch_requests l user_id = (case requests l user_id of None \<Rightarrow> [] | Some tss \<Rightarrow> tss)"

text \<open>Line 55: the timestamps that are still inside the window.\<close>

definition prune :: "rat \<Rightarrow> timestamp \<Rightarrow> timestamp list \<Rightarrow> timestamp list" where
  "prune w now tss = filter (\<lambda>ts. now - ts < w) tss"

text \<open>\<^verbatim>\<open>is_allowed(self, user_id)\<close>, with the one reading \<open>now\<close> of the clock.\<close>

definition SlidingWindowRateLimiter_is_allowed ::
  "SlidingWindowRateLimiter \<Rightarrow> string \<Rightarrow> timestamp \<Rightarrow> bool \<times> SlidingWindowRateLimiter" where
  "SlidingWindowRateLimiter_is_allowed l user_id now =
     (let kept = prune (window l) now (fetch_requests l user_id)
      in if int (length kept) < max_requests l
         then (True, l\<lparr>requests := (requests l)(user_id \<mapsto> kept @ [now])\<rparr>)
         else (False, l\<lparr>requests := (requests l)(user_id \<mapsto> kept)\<rparr>))"

subsection \<open>\<^verbatim>\<open>RateLimiterFactory\<close>\<close>

datatype RateLimiter =
  TokenBucket TokenBucketRateLimiter
| SlidingWindow SlidingWindowRateLimiter

text \<open>
  The keyword arguments handed on by \<^verbatim>\<open>create\<close>, by name; \<open>None\<close> is a keyword
  that was not given. Only the four parameter names of the two constructors are
  represented.
\<close>

record kwargs =
  kw_capacity :: "int option"
  kw_refill_interval :: "rat option"
  kw_max_requests :: "int option"
  kw_window :: "rat option"

definition no_kwargs :: kwargs where
  "no_kwargs = \<lparr>kw_capacity = None, kw_refill_interval = None,
                 kw_max_requests = None, kw_window = None\<rparr>"

text \<open>
  \<^verbatim>\<open>create(limiter_type, **kwargs)\<close>. A constructor called with a keyword it does
  not have raises \<^verbatim>\<open>TypeError\<close>; a keyword that is absent takes the default of
  the constructor's signature.
\<close>

definition RateLimiterFactory_create :: "string \<Rightarrow> kwargs \<Rightarrow> py_error + RateLimiter" where
  "RateLimiterFactory_create limiter_type kw =
     (if limiter_type = ''token_bucket'' then
        (case (kw_max_requests kw, kw_window kw) of
           (None, None) \<Rightarrow>
             Inr (TokenBucket (TokenBucketRateLimiter_init
                    (case kw_capacity kw of None \<Rightarrow> 3 | Some c \<Rightarrow> c)
                    (case kw_refill_interval kw of None \<Rightarrow> 20 | Some r \<Rightarrow> r)))
         | _ \<Rightarrow> Inl TypeError)
      else if limiter_type = ''sliding_window'' then
        (case (kw_capacity kw, kw_refill_interval kw) of
           (None, None) \<Rightarrow>
             Inr (SlidingWindow (SlidingWindowRateLimiter_init
                    (case kw_max_requests kw of None \<Rightarrow> 3 | Some m \<Rightarrow> m)
                    (case kw_window kw of None \<Rightarrow> 60 | Some w \<Rightarrow> w)))
         | _ \<Rightarrow> Inl TypeError)
      else Inl ValueError)"

subsection \<open>Runs: sequences of calls\<close>

text \<open>
  A call of the token bucket is the user id with the two clock readings the call
  sees; a call of the sliding window is the user id with its one reading. A run
  issues the calls in order on the same limiter. \<open>tb_outcomes\<close> lists what each call
  returned or raised, \<open>tb_final\<close> is the limiter after the run, and
  \<open>tb_admit_times k\<close> lists the reading \<open>now\<close> of every call for user \<open>k\<close> that
  returned \<^verbatim>\<open>True\<close>.
\<close>

type_synonym tb_call = "string \<times> timestamp \<times> timestamp"

fun tb_outcomes :: "TokenBucketRateLimiter \<Rightarrow> tb_call list \<Rightarrow> (py_error + bool) list" where
  "tb_outcomes l [] = []"
| "tb_outcomes l ((u, t_create, now) # cs) =
     fst (TokenBucketRateLimiter_is_allowed l u t_create now)
       # tb_outcomes (snd (TokenBucketRateLimiter_is_allowed l u t_create now)) cs"

fun tb_final :: "TokenBucketRateLimiter \<Rightarrow> tb_call list \<Rightarrow> TokenBucketRateLimiter" where
  "tb_final l [] = l"
| "tb_final l ((u, t_create, now) # cs) =
     tb_final (snd (TokenBucketRateLimiter_is_allowed l u t_create now)) cs"



type_synonym sw_call = "string \<times> timestamp"

fun sw_outcomes :: "SlidingWindowRateLimiter \<Rightarrow> sw_call list \<Rightarrow> bool list" where
  "sw_outcomes l [] = []"
| "sw_outcomes l ((u, now) # cs) =
     fst (SlidingWindowRateLimiter_is_allowed l u now)
       # sw_outcomes (snd (SlidingWindowRateLimiter_is_allowed l u now)) cs"



subsection \<open>The two halves of a token bucket call, as total functions\<close>

text \<open>
  When the refill interval is not zero, the refill cannot raise: \<open>refilled\<close> is the
  bucket it leaves and \<open>consumed\<close> the bucket after the attempt to take a token.
  Both are used in proofs only; \<open>refill_nonzero\<close> and \<open>is_allowed_nonzero\<close> below
  connect them to the model of the source.
\<close>

definition refilled :: "int \<Rightarrow> rat \<Rightarrow> bucket \<Rightarrow> timestamp \<Rightarrow> bucket" where
  "refilled cap r b now =
     (if tokens_to_add r b now > 0
      then \<lparr>tokens = min cap (tokens b + tokens_to_add r b now), last_refill = now\<rparr>
      else b)"

definition consumed :: "bucket \<Rightarrow> bucket" where
  "consumed b = (if 0 < tokens b then b\<lparr>tokens := tokens b - 1\<rparr> else b)"

section \<open>Evaluation lemmas\<close>

lemmas tb_defs =
  TokenBucketRateLimiter_is_allowed_def TokenBucketRateLimiter_init_def
  fetch_bucket_def refill_def tokens_to_add_def consume_def

lemmas sw_defs =
  SlidingWindowRateLimiter_is_allowed_def SlidingWindowRateLimiter_init_def
  fetch_requests_def prune_def

text \<open>The floor of a quotient of numerals, for evaluating \<open>tokens_to_add\<close>.\<close>

lemma floor_rat_numeral_divide [simp]:
  "\<lfloor>numeral a / numeral b :: rat\<rfloor> = numeral a div numeral b"
  using floor_divide_of_int_eq [of "numeral a" "numeral b", where ?'a = rat] by simp

lemma floor_rat_neg_numeral_divide [simp]:
  "\<lfloor>- (numeral a / numeral b) :: rat\<rfloor> = - numeral a div numeral b"
  using floor_divide_of_int_eq [of "- numeral a" "numeral b", where ?'a = rat] by simp

section \<open>One call of the token bucket\<close>

lemma is_allowed_capacity [simp]:
  "capacity (snd (TokenBucketRateLimiter_is_allowed l u tc now)) = capacity l"
  by (simp add: TokenBucketRateLimiter_is_allowed_def Let_def split: sum.splits prod.splits)

lemma is_allowed_refill_interval [simp]:
  "refill_interval (snd (TokenBucketRateLimiter_is_allowed l u tc now)) = refill_interval l"
  by (simp add: TokenBucketRateLimiter_is_allowed_def Let_def split: sum.splits prod.splits)

lemma is_allowed_other_user [simp]:
  "k \<noteq> u \<Longrightarrow> buckets (snd (TokenBucketRateLimiter_is_allowed l u tc now)) k = buckets l k"
  by (simp add: TokenBucketRateLimiter_is_allowed_def Let_def split: sum.splits prod.splits)

lemma refill_nonzero: "r \<noteq> 0 \<Longrightarrow> refill cap r b now = Inr (refilled cap r b now)"
  by (simp add: refill_def refilled_def)

lemma is_allowed_nonzero:
  assumes "refill_interval l \<noteq> 0"
  shows "TokenBucketRateLimiter_is_allowed l u tc now =
     (Inr (0 < tokens (refilled (capacity l) (refill_interval l) (fetch_bucket l u tc) now)),
      l\<lparr>buckets := (buckets l)(u \<mapsto>
           consumed (refilled (capacity l) (refill_interval l) (fetch_bucket l u tc) now))\<rparr>)"
  using assms
  by (simp add: TokenBucketRateLimiter_is_allowed_def Let_def consume_def consumed_def
      refill_nonzero)

section \<open>Concrete scenarios\<close>

text \<open>
  Claim C5 (refill determinism). A token bucket with capacity 3 and refill interval
  20: three calls of one user at time 0 are admitted and use up the tokens; a call
  at time 19 is refused, a call at time 20 is admitted and a second call at time 20
  is refused.
\<close>

theorem C5_refill_determinism:
  "tb_outcomes (TokenBucketRateLimiter_init 3 20)
     [(''u'', 0, 0), (''u'', 0, 0), (''u'', 0, 0),
      (''u'', 19, 19), (''u'', 20, 20), (''u'', 20, 20)]
   = [Inr True, Inr True, Inr True, Inr False, Inr True, Inr False]"
  by (simp add: tb_defs)

text \<open>
  Claim C6 (sliding exactness). A sliding window with 5 requests per 60: five calls
  of one user at time 0 are admitted, a sixth at time 30 is refused, a seventh at
  time 61 is admitted.
\<close>

theorem C6_sliding_exactness:
  "sw_outcomes (SlidingWindowRateLimiter_init 5 60)
     [(''u'', 0), (''u'', 0), (''u'', 0), (''u'', 0), (''u'', 0), (''u'', 30), (''u'', 61)]
   = [True, True, True, True, True, False, True]"
  by (simp add: sw_defs)

section \<open>The factory\<close>

text \<open>
  Claim C8 (unknown algorithm name). For every \<open>limiter_type\<close> other than
  \<^verbatim>\<open>"token_bucket"\<close> and \<^verbatim>\<open>"sliding_window"\<close>, whatever the keyword arguments,
  \<^verbatim>\<open>create\<close> raises \<^verbatim>\<open>ValueError\<close> and returns no limiter: there is no
  default algorithm.
\<close>

theorem C8_unknown_algorithm:
  "limiter_type \<noteq> ''token_bucket'' \<Longrightarrow> limiter_type \<noteq> ''sliding_window'' \<Longrightarrow>
   RateLimiterFactory_create limiter_type kw = Inl ValueError"
  by (simp add: RateLimiterFactory_create_def)

theorem C8_unknown_algorithm_witness:
  "''unknown_algo'' \<noteq> ''token_bucket'' \<and> ''unknown_algo'' \<noteq> ''sliding_window'' \<and>
   RateLimiterFactory_create ''unknown_algo'' (no_kwargs\<lparr>kw_capacity := Some 5\<rparr>) = Inl ValueError"
  using C8_unknown_algorithm [of "''unknown_algo''" "no_kwargs\<lparr>kw_capacity := Some 5\<rparr>"] by simp

text \<open>
  Claim C3 says that the factory rejects a capacity or an interval that is not
  positive. The source checks neither: \<^verbatim>\<open>create("token_bucket", capacity=0,
  refill_interval=20)\<close> returns a limiter of capacity 0.
\<close>

theorem C3_counterexample:
  "RateLimiterFactory_create ''token_bucket''
     \<lparr>kw_capacity = Some 0, kw_refill_interval = Some 20,
      kw_max_requests = None, kw_window = None\<rparr>
   = Inr (TokenBucket \<lparr>capacity = 0, refill_interval = 20, buckets = Map.empty\<rparr>)"
  by (simp add: RateLimiterFactory_create_def TokenBucketRateLimiter_init_def)

text \<open>
  Claim C3, amended. The factory validates no numeric parameter: for every capacity
  and refill interval, and for every maximum and window, positive or not,
  construction under the matching algorithm name succeeds and the limiter holds
  exactly the values given (nothing is clamped) and no per-user state.
\<close>

theorem C3_no_validation:
  "RateLimiterFactory_create ''token_bucket''
     \<lparr>kw_capacity = Some c, kw_refill_interval = Some r,
      kw_max_requests = None, kw_window = None\<rparr>
   = Inr (TokenBucket \<lparr>capacity = c, refill_interval = r, buckets = Map.empty\<rparr>)
   \<and> RateLimiterFactory_create ''sliding_window''
     \<lparr>kw_capacity = None, kw_refill_interval = None,
      kw_max_requests = Some m, kw_window = Some w\<rparr>
   = Inr (SlidingWindow \<lparr>max_requests = m, window = w, requests = Map.empty\<rparr>)"
  by (simp add: RateLimiterFactory_create_def TokenBucketRateLimiter_init_def
      SlidingWindowRateLimiter_init_def)

section \<open>The refill of the token bucket\<close>






section \<open>The state invariant of the token bucket\<close>

lemma consumed_tokens_bounds:
  "0 \<le> tokens b \<Longrightarrow> tokens b \<le> c \<Longrightarrow> 0 \<le> tokens (consumed b) \<and> tokens (consumed b) \<le> c"
  by (simp add: consumed_def)

lemma consumed_last_refill [simp]: "last_refill (consumed b) = last_refill b"
  by (simp add: consumed_def)

lemma refilled_tokens_bounds:
  "0 \<le> c \<Longrightarrow> 0 \<le> tokens b \<Longrightarrow> tokens b \<le> c \<Longrightarrow>
   0 \<le> tokens (refilled c r b now) \<and> tokens (refilled c r b now) \<le> c"
  by (simp add: refilled_def)

lemma refilled_last_refill_mono:
  assumes "0 < r"
  shows "last_refill b \<le> last_refill (refilled c r b now)"
proof (cases "0 < tokens_to_add r b now")
  case True
  then have "1 \<le> (now - last_refill b) / r"
    by (simp add: tokens_to_add_def)
  with assms have "r \<le> now - last_refill b"
    by (simp add: pos_le_divide_eq)
  with assms True show ?thesis by (simp add: refilled_def)
next
  case False
  then show ?thesis by (simp add: refilled_def)
qed

lemma tb_step_invariant:
  assumes c: "0 \<le> capacity l" and r: "0 < refill_interval l"
    and inv: "\<And>k b. buckets l k = Some b \<Longrightarrow> 0 \<le> tokens b \<and> tokens b \<le> capacity l"
    and after: "buckets (snd (TokenBucketRateLimiter_is_allowed l u tc now)) k = Some b'"
  shows "0 \<le> tokens b' \<and> tokens b' \<le> capacity l"
proof (cases "k = u")
  case False
  with after inv show ?thesis by simp
next
  case True
  have f: "0 \<le> tokens (fetch_bucket l u tc) \<and> tokens (fetch_bucket l u tc) \<le> capacity l"
    using inv c by (simp add: fetch_bucket_def split: option.splits)
  from r have nz: "refill_interval l \<noteq> 0" by simp
  from after True have
    "b' = consumed (refilled (capacity l) (refill_interval l) (fetch_bucket l u tc) now)"
    by (simp add: is_allowed_nonzero [OF nz])
  with f c show ?thesis
    using consumed_tokens_bounds refilled_tokens_bounds by blast
qed

lemma tb_step_last_refill:
  assumes r: "0 < refill_interval l" and before: "buckets l k = Some b"
  shows "\<exists>b'. buckets (snd (TokenBucketRateLimiter_is_allowed l u tc now)) k = Some b'
             \<and> last_refill b \<le> last_refill b'"
proof (cases "k = u")
  case False
  with before show ?thesis by simp
next
  case True
  from r have nz: "refill_interval l \<noteq> 0" by simp
  from before True have "fetch_bucket l u tc = b" by (simp add: fetch_bucket_def)
  with True r show ?thesis
    by (simp add: is_allowed_nonzero [OF nz] refilled_last_refill_mono)
qed

lemma tb_final_capacity [simp]: "capacity (tb_final l cs) = capacity l"
  by (induction l cs rule: tb_final.induct) simp_all

lemma tb_final_refill_interval [simp]: "refill_interval (tb_final l cs) = refill_interval l"
  by (induction l cs rule: tb_final.induct) simp_all

lemma tb_run_invariant:
  assumes "0 \<le> capacity l" and "0 < refill_interval l"
    and "\<And>k b. buckets l k = Some b \<Longrightarrow> 0 \<le> tokens b \<and> tokens b \<le> capacity l"
    and "buckets (tb_final l cs) k = Some b'"
  shows "0 \<le> tokens b' \<and> tokens b' \<le> capacity l"
  using assms
proof (induction l cs rule: tb_final.induct)
  case (1 l)
  then show ?case by simp
next
  case (2 l u tc now cs)
  let ?l' = "snd (TokenBucketRateLimiter_is_allowed l u tc now)"
  have "0 \<le> tokens b' \<and> tokens b' \<le> capacity ?l'"
  proof (rule "2.IH")
    show "0 \<le> capacity ?l'" using "2.prems"(1) by simp
    show "0 < refill_interval ?l'" using "2.prems"(2) by simp
    show "buckets (tb_final ?l' cs) k = Some b'" using "2.prems"(4) by simp
    show "0 \<le> tokens b \<and> tokens b \<le> capacity ?l'" if "buckets ?l' k = Some b" for k b
      using tb_step_invariant [OF "2.prems"(1,2) _ that] "2.prems"(3) by simp
  qed
  then show ?case by simp
qed

lemma tb_run_last_refill:
  assumes "0 < refill_interval l" and "buckets l k = Some b"
  shows "\<exists>b'. buckets (tb_final l cs) k = Some b' \<and> last_refill b \<le> last_refill b'"
  using assms
proof (induction l cs arbitrary: b rule: tb_final.induct)
  case (1 l)
  then show ?case by simp
next
  case (2 l u tc now cs)
  let ?l' = "snd (TokenBucketRateLimiter_is_allowed l u tc now)"
  from tb_step_last_refill [OF "2.prems"] obtain b1 where
    b1: "buckets ?l' k = Some b1" "last_refill b \<le> last_refill b1" by blast
  have "0 < refill_interval ?l'" using "2.prems"(1) by simp
  from "2.IH" [OF this b1(1)] obtain b' where
    "buckets (tb_final ?l' cs) k = Some b'" "last_refill b1 \<le> last_refill b'" by blast
  with b1(2) show ?case by auto
qed

lemma tb_final_append: "tb_final l (cs @ cs') = tb_final (tb_final l cs) cs'"
  by (induction l cs rule: tb_final.induct) simp_all

text \<open>
  Claim C9 (state invariant). On a limiter constructed with a positive capacity
  and a positive refill interval, after every run of calls \<open>cs\<close> every bucket holds
  between 0 and \<open>capacity\<close> tokens, and whatever calls \<open>cs'\<close> follow, every bucket
  is still there with a \<open>last_refill\<close> that is not earlier. No assumption on the
  clock is needed.
\<close>

theorem C9_state_invariant:
  assumes "0 < c" and "0 < r"
  shows "(\<forall>k b. buckets (tb_final (TokenBucketRateLimiter_init c r) cs) k = Some b \<longrightarrow>
            0 \<le> tokens b \<and> tokens b \<le> c)
       \<and> (\<forall>k b. buckets (tb_final (TokenBucketRateLimiter_init c r) cs) k = Some b \<longrightarrow>
            (\<exists>b'. buckets (tb_final (TokenBucketRateLimiter_init c r) (cs @ cs')) k = Some b'
                 \<and> last_refill b \<le> last_refill b'))"
proof (intro conjI allI impI)
  let ?l = "TokenBucketRateLimiter_init c r"
  have c: "0 \<le> capacity ?l" and r: "0 < refill_interval ?l"
    using assms by (simp_all add: TokenBucketRateLimiter_init_def)
  have empty: "\<And>k b. buckets ?l k = Some b \<Longrightarrow> 0 \<le> tokens b \<and> tokens b \<le> capacity ?l"
    by (simp add: TokenBucketRateLimiter_init_def)
  have cap: "capacity ?l = c" by (simp add: TokenBucketRateLimiter_init_def)
  {
    fix k b
    assume "buckets (tb_final ?l cs) k = Some b"
    from tb_run_invariant [OF c r empty this]
    show "0 \<le> tokens b" "tokens b \<le> c" using cap by simp_all
  }
  {
    fix k b
    assume b: "buckets (tb_final ?l cs) k = Some b"
    have "0 < refill_interval (tb_final ?l cs)" using r by simp
    from tb_run_last_refill [OF this b, of cs']
    show "\<exists>b'. buckets (tb_final ?l (cs @ cs')) k = Some b' \<and> last_refill b \<le> last_refill b'"
      by (simp add: tb_final_append)
  }
qed

theorem C9_state_invariant_witness:
  "(0 :: int) < 3 \<and> (0 :: rat) < 20 \<and>
   buckets (tb_final (TokenBucketRateLimiter_init 3 20) [(''u'', 0, 1)]) ''u''
     = Some \<lparr>tokens = 2, last_refill = 0\<rparr> \<and>
   (0 :: int) \<le> 2 \<and> (2 :: int) \<le> 3 \<and>
   (\<exists>b'. buckets (tb_final (TokenBucketRateLimiter_init 3 20)
                    ([(''u'', 0, 1)] @ [(''u'', 30, 30)])) ''u'' = Some b'
        \<and> 0 \<le> last_refill b')"
proof -
  have p: "(0 :: int) < 3" "(0 :: rat) < 20" by simp_all
  have s: "buckets (tb_final (TokenBucketRateLimiter_init 3 20) [(''u'', 0, 1)]) ''u''
     = Some \<lparr>tokens = 2, last_refill = 0\<rparr>"
    by (simp add: tb_defs)
  from C9_state_invariant [OF p, of "[(''u'', 0, 1)]" "[(''u'', 30, 30)]"] s
  have "\<exists>b'. buckets (tb_final (TokenBucketRateLimiter_init 3 20)
                    ([(''u'', 0, 1)] @ [(''u'', 30, 30)])) ''u'' = Some b'
        \<and> last_refill \<lparr>tokens = 2, last_refill = 0\<rparr> \<le> last_refill b'"
    by blast
  then have "\<exists>b'. buckets (tb_final (TokenBucketRateLimiter_init 3 20)
                    ([(''u'', 0, 1)] @ [(''u'', 30, 30)])) ''u'' = Some b'
        \<and> 0 \<le> last_refill b'"
    by simp
  with s show ?thesis by simp
qed

section \<open>Capacity zero\<close>





section \<open>The sliding window bound\<close>

lemma sw_is_allowed_max_requests [simp]:
  "max_requests (snd (SlidingWindowRateLimiter_is_allowed l u now)) = max_requests l"
  by (simp add: SlidingWindowRateLimiter_is_allowed_def Let_def)

lemma sw_is_allowed_window [simp]:
  "window (snd (SlidingWindowRateLimiter_is_allowed l u now)) = window l"
  by (simp add: SlidingWindowRateLimiter_is_allowed_def Let_def)

lemma sw_is_allowed_other_user [simp]:
  "k \<noteq> u \<Longrightarrow> requests (snd (SlidingWindowRateLimiter_is_allowed l u now)) k = requests l k"
  by (simp add: SlidingWindowRateLimiter_is_allowed_def Let_def)

lemma sw_is_allowed_fetch_other [simp]:
  "k \<noteq> u \<Longrightarrow> fetch_requests (snd (SlidingWindowRateLimiter_is_allowed l u now)) k
                = fetch_requests l k"
  by (simp add: fetch_requests_def)







section \<open>The token bucket bound\<close>














end
